theory Spec2Isabelle
  imports Main "HOL-Library.Multiset"
begin

section \<open>Data model\<close>

text \<open>
  The enumerations of \<^verbatim>\<open>models/enums.py\<close> that the battle controller reads.
\<close>

datatype ActionType = ATTACK | SKILL | ITEM | PASS | DEFEND

datatype StatusEffectType =
  BUFF_ATK | BUFF_DEF | BUFF_SPD | DEBUFF_ATK | DEBUFF_DEF | DEBUFF_SPD
  | STUN | FREEZE | DOT | HOT | SHIELD | REFLECT | IMMUNITY

text \<open>
  \<^verbatim>\<open>StatusEffect\<close> of \<^verbatim>\<open>models/status_effect.py\<close>. The field \<^verbatim>\<open>value\<close> is
  \<open>effect_value\<close> here, \<^verbatim>\<open>name\<close> is \<open>effect_name\<close>. Python integers are unbounded,
  so every numeric field is an \<^typ>\<open>int\<close>.
\<close>

record StatusEffect =
  effect_name :: string
  description :: string
  effect_type :: StatusEffectType
  effect_value :: int
  duration :: int
  source_character_id :: "string option"
  is_buff :: bool

text \<open>
  The members of \<^verbatim>\<open>Skill.effects\<close>: the controller tells \<^verbatim>\<open>DamageEffect\<close> and
  \<^verbatim>\<open>HealingEffect\<close> (each with \<^verbatim>\<open>base_value\<close> and \<^verbatim>\<open>scaling\<close>) apart by
  \<^verbatim>\<open>isinstance\<close>; any other object in the list (such as a \<^verbatim>\<open>SkillEffect\<close>) is
  \<open>OtherEffect\<close>.
\<close>

datatype Effect = DamageEffect int int | HealingEffect int int | OtherEffect

fun calculate_damage :: "Effect \<Rightarrow> int \<Rightarrow> int" where
  "calculate_damage (DamageEffect base_value scaling) attacker_attack =
     base_value + (attacker_attack * scaling) div 100"
| "calculate_damage _ _ = 0"

fun calculate_healing :: "Effect \<Rightarrow> int \<Rightarrow> int" where
  "calculate_healing (HealingEffect base_value scaling) caster_stat =
     base_value + (caster_stat * scaling) div 100"
| "calculate_healing _ _ = 0"

record Skill =
  skill_name :: string
  cost :: int
  chakra_cost :: int
  effects :: "Effect list"

text \<open>\<^verbatim>\<open>Skill.__post_init__\<close>: a cost given without a chakra cost is copied into it.\<close>

definition skill_post_init :: "Skill \<Rightarrow> Skill" where
  "skill_post_init sk =
     (if cost sk > 0 \<and> chakra_cost sk = 0 then sk\<lparr>chakra_cost := cost sk\<rparr> else sk)"

text \<open>
  Characters, their lists of status effects and the status effects are objects, shared
  and updated in place: an effect object may sit in a list twice or in two lists, and
  two characters may hold the same list (\<^verbatim>\<open>Character.clone\<close> passes the list on). A
  reference is a number; a store gives the object behind it. The store of the effect
  lists and of the effect objects:
\<close>

type_synonym ref = nat

record EffectStore =
  effect_lists :: "ref \<Rightarrow> ref list"
  effect_objects :: "ref \<Rightarrow> StatusEffect"

text \<open>
  \<^verbatim>\<open>Character\<close> of \<^verbatim>\<open>models/character.py\<close>, with the fields the battle controller
  and the two mutators read or write, and the plain attributes next to them. The hit
  points are held twice, as the source has them: \<open>hp\<close> and the internal \<open>current_hp\<close>.
  \<open>status_effects\<close> is the reference of the character's list object.
\<close>

record Character =
  name :: string
  hp :: int
  max_hp :: int
  chakra :: int
  max_chakra :: int
  attack :: int
  defense :: int
  speed :: int
  skills :: "Skill list"
  status_effects :: ref
  is_alive :: bool
  can_act :: bool
  chakra_regen :: int
  is_player_controlled :: bool
  current_hp :: int

text \<open>\<^verbatim>\<open>Character.__post_init__\<close>: what the constructor leaves in the two hp fields.\<close>

definition post_init :: "Character \<Rightarrow> Character" where
  "post_init c =
     (let c1 = (if hp c > 0 then c\<lparr>current_hp := hp c\<rparr>
                else c\<lparr>current_hp := max_hp c, hp := max_hp c\<rparr>)
      in if current_hp c1 > max_hp c1
         then c1\<lparr>current_hp := max_hp c1, hp := max_hp c1\<rparr>
         else c1)"

text \<open>
  \<^verbatim>\<open>Character.clone\<close>: a new character built by the constructor from the fields of
  the old one, so with the same list objects.
\<close>

definition clone :: "Character \<Rightarrow> Character" where
  "clone c = post_init c"

section \<open>The mutators of a character\<close>

text \<open>
  \<^verbatim>\<open>Character.take_damage\<close> and \<^verbatim>\<open>Character.heal\<close>: the character after the call
  and the value returned.
\<close>

definition take_damage :: "Character \<Rightarrow> int \<Rightarrow> Character \<times> int" where
  "take_damage c amount =
     (if \<not> is_alive c then (c, 0)
      else
        let actual_damage = min (current_hp c) amount;
            c1 = c\<lparr>current_hp := current_hp c - actual_damage\<rparr>;
            c2 = c1\<lparr>hp := current_hp c1\<rparr>;
            c3 = (if current_hp c2 \<le> 0
                  then c2\<lparr>is_alive := False, current_hp := 0, hp := 0\<rparr>
                  else c2)
        in (c3, actual_damage))"

definition heal :: "Character \<Rightarrow> int \<Rightarrow> Character \<times> int" where
  "heal c amount =
     (if \<not> is_alive c then (c, 0)
      else
        let old_hp = current_hp c;
            c1 = c\<lparr>current_hp := min (max_hp c) (current_hp c + amount)\<rparr>;
            c2 = c1\<lparr>hp := current_hp c1\<rparr>
        in (c2, current_hp c2 - old_hp))"

section \<open>Round-start status effects\<close>

text \<open>
  The loop of \<^verbatim>\<open>BattleController._process_turn_based_effects\<close> over
  \<^verbatim>\<open>character.status_effects\<close>: the entries of the list still to visit, the effect
  objects (updated in place), the character and \<^verbatim>\<open>effects_to_remove\<close>. The loop
  never changes the list itself. The event callbacks (\<^verbatim>\<open>on_effect_triggered\<close>,
  \<^verbatim>\<open>on_status_effect_removed\<close> and the others of \<^verbatim>\<open>IBattleEvents\<close>) only notify
  the view; they are left out throughout.
\<close>

fun effects_loop ::
  "ref list \<Rightarrow> (ref \<Rightarrow> StatusEffect) \<Rightarrow> Character \<Rightarrow> ref list
     \<Rightarrow> (ref \<Rightarrow> StatusEffect) \<times> Character \<times> ref list" where
  "effects_loop [] objs c effects_to_remove = (objs, c, effects_to_remove)"
| "effects_loop (effect # rest) objs c effects_to_remove =
     (let objs1 = (if duration (objs effect) > 0
                   then objs(effect := (objs effect)\<lparr>duration := duration (objs effect) - 1\<rparr>)
                   else objs);
          c1 = (if effect_type (objs1 effect) = DOT
                  then c\<lparr>hp := max 0 (hp c - effect_value (objs1 effect))\<rparr>
                else if effect_type (objs1 effect) = HOT
                  then c\<lparr>hp := min (max_hp c) (hp c + effect_value (objs1 effect))\<rparr>
                else c);
          effects_to_remove1 = (if duration (objs1 effect) = 0
                                then effects_to_remove @ [effect]
                                else effects_to_remove)
      in effects_loop rest objs1 c1 effects_to_remove1)"

text \<open>
  \<^verbatim>\<open>list.remove(x)\<close> deletes the first entry equal to \<open>x\<close>, and a dataclass compares
  by fields: the first entry whose object has the field values of \<open>x\<close>. It raises
  when there is none; lemma \<open>effects_to_remove_present\<close> below shows that this never
  happens here.
\<close>

fun list_remove :: "(ref \<Rightarrow> StatusEffect) \<Rightarrow> ref \<Rightarrow> ref list \<Rightarrow> ref list" where
  "list_remove objs x [] = []"
| "list_remove objs x (y # ys) =
     (if objs y = objs x then ys else y # list_remove objs x ys)"

definition process_turn_based_effects :: "EffectStore \<Rightarrow> Character \<Rightarrow> EffectStore \<times> Character" where
  "process_turn_based_effects st c =
     (case effects_loop (effect_lists st (status_effects c)) (effect_objects st) c [] of
        (objs, c1, effects_to_remove) \<Rightarrow>
          (\<lparr>effect_lists = (effect_lists st)
               (status_effects c :=
                  foldl (\<lambda>xs effect. list_remove objs effect xs)
                    (effect_lists st (status_effects c)) effects_to_remove),
            effect_objects = objs\<rparr>,
           c1))"

section \<open>Teams, the battle state and the store of characters\<close>

text \<open>
  Teams, the turn order and actions refer to shared \<^verbatim>\<open>Character\<close> objects, which the
  controller mutates in place: \<open>heap\<close> gives the character behind a reference and
  \<open>store\<close> holds the effect lists and effect objects. \<^verbatim>\<open>BattleTeam\<close> and
  \<^verbatim>\<open>BattleState\<close> keep the fields the controller uses.
\<close>

record BattleTeam =
  team_name :: string
  player_id :: string
  characters :: "ref list"

record BattleState =
  heap :: "ref \<Rightarrow> Character"
  store :: EffectStore
  team_a :: BattleTeam
  team_b :: BattleTeam
  current_round :: int
  turn_order :: "ref list"
  current_character_index :: int

section \<open>Round preparation and turn order\<close>

text \<open>
  \<^verbatim>\<open>random.shuffle\<close> of the standard library: for \<open>i\<close> from the last index down
  to 1 it swaps element \<open>i\<close> with element \<open>j\<close>, where \<open>j\<close> is drawn below \<open>i + 1\<close>.
  The random source is the parameter \<open>rnd\<close>: \<open>rnd i\<close> is the draw made at index \<open>i\<close>,
  reduced into range.
\<close>

fun shuffle_loop :: "(nat \<Rightarrow> nat) \<Rightarrow> nat \<Rightarrow> 'a list \<Rightarrow> 'a list" where
  "shuffle_loop rnd 0 xs = xs"
| "shuffle_loop rnd (Suc i) xs =
     (let j = rnd (Suc i) mod (Suc i + 1)
      in shuffle_loop rnd i (xs[Suc i := xs ! j, j := xs ! Suc i]))"

definition shuffle :: "(nat \<Rightarrow> nat) \<Rightarrow> 'a list \<Rightarrow> 'a list" where
  "shuffle rnd xs = shuffle_loop rnd (length xs - 1) xs"

text \<open>
  \<^verbatim>\<open>BattleController._calculate_turn_order\<close>. \<^verbatim>\<open>sort(key=..., reverse=True)\<close> is
  a stable sort into descending key order: the stable insertion sort \<^const>\<open>sort_key\<close> on
  the negated speed.
\<close>

definition calculate_turn_order :: "(nat \<Rightarrow> nat) \<Rightarrow> BattleState \<Rightarrow> BattleState" where
  "calculate_turn_order rnd s =
     (let all_characters =
            filter (\<lambda>r. is_alive (heap s r)) (characters (team_a s) @ characters (team_b s));
          shuffled = shuffle rnd all_characters;
          ordered = sort_key (\<lambda>r. - speed (heap s r)) shuffled
      in s\<lparr>turn_order := ordered, current_character_index := 0\<rparr>)"

text \<open>
  \<^verbatim>\<open>BattleController._prepare_new_round\<close>. \<open>regenerate_chakra\<close> is its line
  \<^verbatim>\<open>character.chakra = min(character.chakra + character.chakra_regen, character.max_chakra)\<close>;
  \<open>round_start\<close> is the body of its inner loop for one character.
\<close>

definition regenerate_chakra :: "Character \<Rightarrow> Character" where
  "regenerate_chakra c = c\<lparr>chakra := min (chakra c + chakra_regen c) (max_chakra c)\<rparr>"

definition round_start :: "BattleState \<Rightarrow> ref \<Rightarrow> BattleState" where
  "round_start s r =
     (if \<not> is_alive (heap s r) then s
      else
        case process_turn_based_effects (store s) (regenerate_chakra (heap s r)) of
          (st, c) \<Rightarrow> s\<lparr>heap := (heap s)(r := c), store := st\<rparr>)"

definition prepare_new_round :: "(nat \<Rightarrow> nat) \<Rightarrow> BattleState \<Rightarrow> BattleState" where
  "prepare_new_round rnd s =
     (let s1 = s\<lparr>current_round := current_round s + 1\<rparr>;
          s2 = foldl round_start s1 (characters (team_a s1) @ characters (team_b s1))
      in calculate_turn_order rnd s2)"

section \<open>Actions and their resolution\<close>

text \<open>
  \<^verbatim>\<open>Action\<close> and \<^verbatim>\<open>ActionResult\<close> of \<^verbatim>\<open>models/action.py\<close>. The messages are
  formatted strings in the source; here each is a constructor holding the values the
  string is built from. \<^verbatim>\<open>_execute_item\<close> does not append to \<^verbatim>\<open>messages\<close> but sets
  an attribute \<^verbatim>\<open>message\<close>, the field \<open>message\<close> below.
\<close>

datatype Message =
  AttackNoTarget string
  | AttackHit string string int
  | Defeated string
  | SkillNotSpecified string
  | SkillNoTarget string string
  | SkillDamage string string int
  | SkillHealing string string int
  | SkillUsed string string string
  | ItemNotImplemented

record Action =
  character :: ref
  action_type :: ActionType
  target :: "ref option"
  skill :: "Skill option"

record ActionResult =
  action :: Action
  success :: bool
  messages :: "Message list"
  message :: "Message option"

definition add_message :: "ActionResult \<Rightarrow> Message \<Rightarrow> ActionResult" where
  "add_message result m = result\<lparr>messages := messages result @ [m]\<rparr>"

text \<open>\<^verbatim>\<open>BattleController._execute_attack\<close>.\<close>

definition execute_attack ::
  "Action \<Rightarrow> ActionResult \<Rightarrow> (ref \<Rightarrow> Character) \<Rightarrow> (ref \<Rightarrow> Character) \<times> ActionResult" where
  "execute_attack act result h =
     (let attacker = character act in
      if target act = None \<or> \<not> is_alive (h (the (target act)))
      then (h, add_message (result\<lparr>success := False\<rparr>) (AttackNoTarget (name (h attacker))))
      else
        let t = the (target act);
            base_damage = attack (h attacker) - defense (h t) div 2;
            damage = max 1 base_damage;
            actual_damage = snd (take_damage (h t) damage);
            h1 = h(t := fst (take_damage (h t) damage));
            result1 = add_message (result\<lparr>success := True\<rparr>)
                        (AttackHit (name (h1 attacker)) (name (h1 t)) actual_damage)
        in if \<not> is_alive (h1 t)
           then (h1, add_message result1 (Defeated (name (h1 t))))
           else (h1, result1))"

text \<open>\<^verbatim>\<open>BattleController._apply_skill_effect\<close>.\<close>

fun apply_skill_effect ::
  "ref \<Rightarrow> ref \<Rightarrow> Effect \<Rightarrow> (ref \<Rightarrow> Character) \<times> ActionResult
     \<Rightarrow> (ref \<Rightarrow> Character) \<times> ActionResult" where
  "apply_skill_effect caster t (DamageEffect b sc) (h, result) =
     (let damage = calculate_damage (DamageEffect b sc) (attack (h caster));
          actual_damage = snd (take_damage (h t) damage);
          h1 = h(t := fst (take_damage (h t) damage));
          result1 = add_message result
                      (SkillDamage (name (h1 caster)) (name (h1 t)) actual_damage)
      in if \<not> is_alive (h1 t)
         then (h1, add_message result1 (Defeated (name (h1 t))))
         else (h1, result1))"
| "apply_skill_effect caster t (HealingEffect b sc) (h, result) =
     (let healing = calculate_healing (HealingEffect b sc) (attack (h caster));
          actual_healing = snd (heal (h t) healing);
          h1 = h(t := fst (heal (h t) healing))
      in (h1, add_message result
                (SkillHealing (name (h1 caster)) (name (h1 t)) actual_healing)))"
| "apply_skill_effect caster t OtherEffect (h, result) = (h, result)"

text \<open>
  \<^verbatim>\<open>BattleController._execute_skill\<close>. \<open>skill_cost\<close> is its local \<^verbatim>\<open>cost\<close>
  (\<^verbatim>\<open>skill.cost\<close> when positive, else \<^verbatim>\<open>skill.chakra_cost\<close>) and \<open>deduct_cost\<close> the
  guarded deduction that follows it.
\<close>

definition skill_cost :: "Skill \<Rightarrow> int" where
  "skill_cost sk = (if cost sk > 0 then cost sk else chakra_cost sk)"

definition deduct_cost :: "Skill \<Rightarrow> Character \<Rightarrow> Character" where
  "deduct_cost sk caster =
     (if skill_cost sk > 0
      then caster\<lparr>chakra := max 0 (chakra caster - skill_cost sk)\<rparr>
      else caster)"

definition execute_skill ::
  "Action \<Rightarrow> ActionResult \<Rightarrow> (ref \<Rightarrow> Character) \<Rightarrow> (ref \<Rightarrow> Character) \<times> ActionResult" where
  "execute_skill act result h =
     (let caster = character act in
      case skill act of
        None \<Rightarrow>
          (h, add_message (result\<lparr>success := False\<rparr>) (SkillNotSpecified (name (h caster))))
      | Some sk \<Rightarrow>
          if target act = None \<or> \<not> is_alive (h (the (target act)))
          then (h, add_message (result\<lparr>success := False\<rparr>)
                     (SkillNoTarget (name (h caster)) (skill_name sk)))
          else
            let t = the (target act);
                h1 = h(caster := deduct_cost sk (h caster));
                applied = foldl (\<lambda>st effect. apply_skill_effect caster t effect st)
                            (h1, result) (effects sk);
                h2 = fst applied;
                result1 = snd applied
            in (h2, add_message (result1\<lparr>success := True\<rparr>)
                      (SkillUsed (name (h2 caster)) (name (h2 t)) (skill_name sk))))"

text \<open>\<^verbatim>\<open>BattleController._execute_item\<close>.\<close>

definition execute_item ::
  "Action \<Rightarrow> ActionResult \<Rightarrow> (ref \<Rightarrow> Character) \<Rightarrow> (ref \<Rightarrow> Character) \<times> ActionResult" where
  "execute_item act result h = (h, result\<lparr>success := False, message := Some ItemNotImplemented\<rparr>)"

section \<open>End of battle and turn advance\<close>

text \<open>\<^verbatim>\<open>is_battle_over\<close> and \<^verbatim>\<open>get_winning_team\<close>.\<close>

definition team_alive :: "BattleState \<Rightarrow> BattleTeam \<Rightarrow> bool" where
  "team_alive s team = list_ex (\<lambda>r. is_alive (heap s r)) (characters team)"

definition is_battle_over :: "BattleState \<Rightarrow> bool" where
  "is_battle_over s =
     (let team_a_alive = team_alive s (team_a s);
          team_b_alive = team_alive s (team_b s)
      in \<not> (team_a_alive \<and> team_b_alive))"

definition get_winning_team :: "BattleState \<Rightarrow> BattleTeam option" where
  "get_winning_team s =
     (if \<not> is_battle_over s then None
      else if team_alive s (team_a s) then Some (team_a s)
      else Some (team_b s))"

text \<open>
  \<^verbatim>\<open>next_turn\<close> and \<^verbatim>\<open>execute_action\<close>, each with the flag it returns (battle
  over). \<open>resolve\<close> is the head of \<^verbatim>\<open>execute_action\<close>: it creates the
  \<^verbatim>\<open>ActionResult\<close> and dispatches on the action type (a \<^verbatim>\<open>DEFEND\<close> action meets
  no branch). \<^verbatim>\<open>_process_combo_actions\<close> does nothing and nothing ever fills
  \<^verbatim>\<open>_action_queue\<close>, so the combo branch of \<^verbatim>\<open>execute_action\<close> is never taken.
\<close>

definition next_turn :: "(nat \<Rightarrow> nat) \<Rightarrow> BattleState \<Rightarrow> BattleState \<times> bool" where
  "next_turn rnd s =
     (if is_battle_over s then (s, True)
      else
        let s1 = s\<lparr>current_character_index := current_character_index s + 1\<rparr>
        in if current_character_index s1 \<ge> int (length (turn_order s1))
           then (prepare_new_round rnd s1, False)
           else (s1, False))"

definition resolve :: "Action \<Rightarrow> (ref \<Rightarrow> Character) \<Rightarrow> (ref \<Rightarrow> Character) \<times> ActionResult" where
  "resolve act h =
     (let result = \<lparr>action = act, success = True, messages = [], message = None\<rparr>
      in if action_type act = ATTACK then execute_attack act result h
         else if action_type act = SKILL then execute_skill act result h
         else if action_type act = ITEM then execute_item act result h
         else if action_type act = PASS then (h, result\<lparr>success := True\<rparr>)
         else (h, result))"

definition execute_action ::
  "(nat \<Rightarrow> nat) \<Rightarrow> Action \<Rightarrow> BattleState \<Rightarrow> BattleState \<times> ActionResult \<times> bool" where
  "execute_action rnd act s =
     (let resolved = resolve act (heap s);
          s1 = s\<lparr>heap := fst resolved\<rparr>;
          result = snd resolved
      in if is_battle_over s1 then (s1, result, True)
         else (fst (next_turn rnd s1), result, snd (next_turn rnd s1)))"

section \<open>Notions used in the statements\<close>

text \<open>
  What one visit of the loop does to an effect (its duration goes down by one when
  positive) and, through a periodic effect, to the character (\<open>trigger\<close>), and
  \<^verbatim>\<open>list.remove\<close> with its failure made explicit: \<open>None\<close> stands for the
  \<^verbatim>\<open>ValueError\<close> raised when no entry is equal.
\<close>

definition decrement :: "StatusEffect \<Rightarrow> StatusEffect" where
  "decrement e = (if duration e > 0 then e\<lparr>duration := duration e - 1\<rparr> else e)"

definition trigger :: "Character \<Rightarrow> StatusEffect \<Rightarrow> Character" where
  "trigger c e =
     (if effect_type e = DOT then c\<lparr>hp := max 0 (hp c - effect_value e)\<rparr>
      else if effect_type e = HOT then c\<lparr>hp := min (max_hp c) (hp c + effect_value e)\<rparr>
      else c)"

fun remove_each :: "(ref \<Rightarrow> StatusEffect) \<Rightarrow> ref list \<Rightarrow> ref list \<Rightarrow> ref list option" where
  "remove_each objs xs [] = Some xs"
| "remove_each objs xs (e # es) =
     (if list_ex (\<lambda>y. objs y = objs e) xs
      then remove_each objs (list_remove objs e xs) es else None)"

text \<open>
  The entries a pass keeps when every entry is visited once: those whose duration is
  neither 1 nor 0 before the pass.
\<close>

definition kept :: "(ref \<Rightarrow> StatusEffect) \<Rightarrow> ref list \<Rightarrow> ref list" where
  "kept objs es = filter (\<lambda>e. duration (objs e) \<noteq> 1 \<and> duration (objs e) \<noteq> 0) es"

text \<open>
  No alive character among \<open>rs\<close> holds the list \<open>l\<close> or, in its own list, one of
  the effect objects \<open>E\<close>.
\<close>

definition apart :: "BattleState \<Rightarrow> ref list \<Rightarrow> ref \<Rightarrow> ref set \<Rightarrow> bool" where
  "apart s rs l E \<longleftrightarrow>
     (\<forall>x \<in> set rs. is_alive (heap s x) \<longrightarrow>
        status_effects (heap s x) \<noteq> l
        \<and> set (effect_lists (store s) (status_effects (heap s x))) \<inter> E = {})"

text \<open>
  The bounds of the specification, \<open>0 \<le> hp \<le> max_hp\<close> and \<open>0 \<le> chakra \<le> max_chakra\<close>,
  and the same bound on the internal copy of the hit points.
\<close>

definition bounds :: "Character \<Rightarrow> bool" where
  "bounds c \<longleftrightarrow> 0 \<le> hp c \<and> hp c \<le> max_hp c \<and> 0 \<le> chakra c \<and> chakra c \<le> max_chakra c"

definition internal_bounds :: "Character \<Rightarrow> bool" where
  "internal_bounds c \<longleftrightarrow> 0 \<le> current_hp c \<and> current_hp c \<le> max_hp c"

definition periodic_values_nonneg :: "EffectStore \<Rightarrow> Character \<Rightarrow> bool" where
  "periodic_values_nonneg st c \<longleftrightarrow>
     list_all (\<lambda>e. effect_type (effect_objects st e) \<in> {DOT, HOT}
                     \<longrightarrow> 0 \<le> effect_value (effect_objects st e))
       (effect_lists st (status_effects c))"

section \<open>Concrete characters, skills and states\<close>

text \<open>
  The effect objects and lists of the examples. List 0 is empty, list 1 holds a
  poison of 10 for two rounds, list 2 a poison of duration 1 and a regeneration of
  duration 2, list 3 holds one and the same object (duration 2) twice, list 4 a poison
  of negative value.
\<close>

definition poison :: "int \<Rightarrow> int \<Rightarrow> StatusEffect" where
  "poison v d = \<lparr>effect_name = ''poison'', description = ''damage over time'',
     effect_type = DOT, effect_value = v, duration = d, source_character_id = None,
     is_buff = False\<rparr>"

definition regeneration :: "int \<Rightarrow> int \<Rightarrow> StatusEffect" where
  "regeneration v d = \<lparr>effect_name = ''regeneration'', description = ''heal over time'',
     effect_type = HOT, effect_value = v, duration = d, source_character_id = None,
     is_buff = True\<rparr>"

definition arena :: EffectStore where
  "arena = \<lparr>effect_lists = (\<lambda>_. [])(1 := [0], 2 := [1, 2], 3 := [3, 3], 4 := [4]),
     effect_objects = (\<lambda>_. poison 10 2)
       (1 := poison 5 1, 2 := regeneration 5 2, 3 := poison 5 2, 4 := poison (- 10) 2)\<rparr>"

definition fighter :: Character where
  "fighter = post_init \<lparr>name = ''fighter'', hp = 100, max_hp = 100, chakra = 100,
     max_chakra = 100, attack = 50, defense = 30, speed = 50, skills = [],
     status_effects = 0, is_alive = True, can_act = True, chakra_regen = 10,
     is_player_controlled = False, current_hp = 0\<rparr>"

definition fallen :: Character where
  "fallen = fighter\<lparr>hp := 0, current_hp := 0, is_alive := False\<rparr>"

definition poisoned :: Character where
  "poisoned = fighter\<lparr>name := ''poisoned'', hp := 10, current_hp := 10,
     status_effects := 1\<rparr>"

definition fireball :: "int \<Rightarrow> Skill" where
  "fireball c = skill_post_init \<lparr>skill_name = ''fireball'', cost = c, chakra_cost = 0,
     effects = [DamageEffect 20 50]\<rparr>"

definition refund :: Skill where
  "refund = skill_post_init \<lparr>skill_name = ''refund'', cost = - 5, chakra_cost = - 5,
     effects = [DamageEffect 20 50]\<rparr>"

definition blank_result :: "Action \<Rightarrow> ActionResult" where
  "blank_result act = \<lparr>action = act, success = True, messages = [], message = None\<rparr>"

definition duel_heap :: "Character \<Rightarrow> Character \<Rightarrow> ref \<Rightarrow> Character" where
  "duel_heap a b = (\<lambda>_. a)(1 := b)"

definition duel :: "Character \<Rightarrow> Character \<Rightarrow> BattleState" where
  "duel a b = \<lparr>heap = duel_heap a b, store = arena,
     team_a = \<lparr>team_name = ''A'', player_id = ''player1'', characters = [0]\<rparr>,
     team_b = \<lparr>team_name = ''B'', player_id = ''player2'', characters = [1]\<rparr>,
     current_round = 0, turn_order = [], current_character_index = 0\<rparr>"

definition rival :: Character where
  "rival = fighter\<lparr>name := ''rival''\<rparr>"

definition trio :: BattleState where
  "trio = \<lparr>heap = (\<lambda>_. fighter)(1 := rival, 2 := fallen), store = arena,
     team_a = \<lparr>team_name = ''A'', player_id = ''player1'', characters = [0]\<rparr>,
     team_b = \<lparr>team_name = ''B'', player_id = ''player2'', characters = [1, 2]\<rparr>,
     current_round = 0, turn_order = [], current_character_index = 0\<rparr>"

definition drained :: Character where
  "drained = fighter\<lparr>chakra := 5, chakra_regen := - 10\<rparr>"

definition stale :: Character where
  "stale = fighter\<lparr>hp := 50, current_hp := 150\<rparr>"

definition victim :: Character where
  "victim = fighter\<lparr>name := ''victim'', status_effects := 1\<rparr>"

definition treated :: Character where
  "treated = fighter\<lparr>name := ''treated'', status_effects := 2\<rparr>"

definition twice_poisoned :: Character where
  "twice_poisoned = fighter\<lparr>name := ''twice poisoned'', status_effects := 3\<rparr>"

definition cursed :: Character where
  "cursed = fighter\<lparr>name := ''cursed'', status_effects := 4\<rparr>"

definition strike :: Action where
  "strike = \<lparr>character = 0, action_type = ATTACK, target = Some 1, skill = None\<rparr>"

definition tired :: Character where
  "tired = fighter\<lparr>chakra := 50\<rparr>"

definition cast :: "Skill \<Rightarrow> Action" where
  "cast sk = \<lparr>character = 0, action_type = SKILL, target = Some 1, skill = Some sk\<rparr>"

section \<open>Lemmas on the round-start pass\<close>

lemma effects_loop_Cons:
  "effects_loop (e # es) objs c r =
     effects_loop es (objs(e := decrement (objs e))) (trigger c (decrement (objs e)))
       (if duration (decrement (objs e)) = 0 then r @ [e] else r)"
proof (cases "duration (objs e) > 0")
  case True
  then show ?thesis by (simp add: Let_def decrement_def trigger_def)
next
  case False
  then have "objs(e := objs e) = objs" by simp
  with False show ?thesis by (simp add: Let_def decrement_def trigger_def)
qed

lemma decrement_same [simp]:
  "effect_type (decrement e) = effect_type e" "effect_value (decrement e) = effect_value e"
  by (simp_all add: decrement_def)

lemma trigger_fields [simp]:
  "is_alive (trigger c e) = is_alive c" "chakra (trigger c e) = chakra c"
  "max_chakra (trigger c e) = max_chakra c" "max_hp (trigger c e) = max_hp c"
  "current_hp (trigger c e) = current_hp c" "speed (trigger c e) = speed c"
  "status_effects (trigger c e) = status_effects c" "attack (trigger c e) = attack c"
  "defense (trigger c e) = defense c" "name (trigger c e) = name c"
  by (simp_all add: trigger_def)

lemma effects_loop_is_alive: "is_alive (fst (snd (effects_loop es objs c r))) = is_alive c"
  by (induction es arbitrary: objs c r) (simp_all add: effects_loop_Cons del: effects_loop.simps(2))

lemma effects_loop_chakra: "chakra (fst (snd (effects_loop es objs c r))) = chakra c"
  by (induction es arbitrary: objs c r) (simp_all add: effects_loop_Cons del: effects_loop.simps(2))

lemma effects_loop_max_chakra: "max_chakra (fst (snd (effects_loop es objs c r))) = max_chakra c"
  by (induction es arbitrary: objs c r) (simp_all add: effects_loop_Cons del: effects_loop.simps(2))

lemma effects_loop_max_hp: "max_hp (fst (snd (effects_loop es objs c r))) = max_hp c"
  by (induction es arbitrary: objs c r) (simp_all add: effects_loop_Cons del: effects_loop.simps(2))

lemma effects_loop_current_hp: "current_hp (fst (snd (effects_loop es objs c r))) = current_hp c"
  by (induction es arbitrary: objs c r) (simp_all add: effects_loop_Cons del: effects_loop.simps(2))

lemma effects_loop_speed: "speed (fst (snd (effects_loop es objs c r))) = speed c"
  by (induction es arbitrary: objs c r) (simp_all add: effects_loop_Cons del: effects_loop.simps(2))

lemma effects_loop_status: "status_effects (fst (snd (effects_loop es objs c r))) = status_effects c"
  by (induction es arbitrary: objs c r) (simp_all add: effects_loop_Cons del: effects_loop.simps(2))

lemma effects_loop_type:
  "effect_type (fst (effects_loop es objs c r) x) = effect_type (objs x)"
  by (induction es arbitrary: objs c r) (simp_all add: effects_loop_Cons del: effects_loop.simps(2))

lemma effects_loop_value:
  "effect_value (fst (effects_loop es objs c r) x) = effect_value (objs x)"
  by (induction es arbitrary: objs c r) (simp_all add: effects_loop_Cons del: effects_loop.simps(2))

lemma effects_loop_elsewhere:
  "x \<notin> set es \<Longrightarrow> fst (effects_loop es objs c r) x = objs x"
  by (induction es arbitrary: objs c r) (simp_all add: effects_loop_Cons del: effects_loop.simps(2))

lemma trigger_hp:
  assumes "0 \<le> hp c" and "hp c \<le> max_hp c"
    and "effect_type e \<in> {DOT, HOT} \<longrightarrow> 0 \<le> effect_value e"
  shows "0 \<le> hp (trigger c e) \<and> hp (trigger c e) \<le> max_hp (trigger c e)"
  using assms by (auto simp: trigger_def)

lemma effects_loop_hp:
  "0 \<le> hp c \<Longrightarrow> hp c \<le> max_hp c \<Longrightarrow>
   list_all (\<lambda>e. effect_type (objs e) \<in> {DOT, HOT} \<longrightarrow> 0 \<le> effect_value (objs e)) es \<Longrightarrow>
   0 \<le> hp (fst (snd (effects_loop es objs c r)))
     \<and> hp (fst (snd (effects_loop es objs c r))) \<le> max_hp (fst (snd (effects_loop es objs c r)))"
proof (induction es arbitrary: objs c r)
  case Nil
  then show ?case by simp
next
  case (Cons e es)
  from Cons.prems have e: "effect_type (decrement (objs e)) \<in> {DOT, HOT}
      \<longrightarrow> 0 \<le> effect_value (decrement (objs e))"
    by simp
  from Cons.prems(3)
  have rest: "list_all (\<lambda>x. effect_type ((objs(e := decrement (objs e))) x) \<in> {DOT, HOT}
                 \<longrightarrow> 0 \<le> effect_value ((objs(e := decrement (objs e))) x)) es"
    by (simp add: list_all_iff)
  from trigger_hp [OF Cons.prems(1,2) e]
  show ?case
    unfolding effects_loop_Cons by (intro Cons.IH rest) simp_all
qed

lemma effects_loop_marks:
  "mset (snd (snd (effects_loop es objs c r))) \<subseteq># mset r + mset es"
proof (induction es arbitrary: objs c r)
  case Nil
  then show ?case by simp
next
  case (Cons e es)
  let ?objs = "objs(e := decrement (objs e))" and ?c = "trigger c (decrement (objs e))"
  show ?case
  proof (cases "duration (decrement (objs e)) = 0")
    case True
    then have step: "effects_loop (e # es) objs c r = effects_loop es ?objs ?c (r @ [e])"
      by (simp add: effects_loop_Cons del: effects_loop.simps)
    have "mset (snd (snd (effects_loop es ?objs ?c (r @ [e])))) \<subseteq># mset (r @ [e]) + mset es"
      by (rule Cons.IH)
    also have "mset (r @ [e]) + mset es = mset r + mset (e # es)" by simp
    finally show ?thesis unfolding step .
  next
    case False
    then have step: "effects_loop (e # es) objs c r = effects_loop es ?objs ?c r"
      by (simp add: effects_loop_Cons del: effects_loop.simps)
    have "mset (snd (snd (effects_loop es ?objs ?c r))) \<subseteq># mset r + mset es"
      by (rule Cons.IH)
    also have "mset r + mset es \<subseteq># mset r + mset (e # es)" by simp
    finally show ?thesis unfolding step .
  qed
qed

lemma list_remove_image:
  "list_ex (\<lambda>y. objs y = objs x) xs \<Longrightarrow>
     image_mset objs (mset (list_remove objs x xs)) = image_mset objs (mset xs) - {#objs x#}"
  by (induction xs) auto

lemma remove_each_succeeds:
  "image_mset objs (mset es) \<subseteq># image_mset objs (mset xs) \<Longrightarrow>
     remove_each objs xs es = Some (foldl (\<lambda>xs e. list_remove objs e xs) xs es)"
proof (induction es arbitrary: xs)
  case Nil
  then show ?case by simp
next
  case (Cons e es)
  from Cons.prems have "objs e \<in># image_mset objs (mset xs)"
    by (simp add: insert_subset_eq_iff)
  then have ex: "list_ex (\<lambda>y. objs y = objs e) xs"
    by (auto simp: list_ex_iff)
  from Cons.prems
  have "image_mset objs (mset es) \<subseteq># image_mset objs (mset xs) - {#objs e#}"
    by (simp add: insert_subset_eq_iff)
  then have "image_mset objs (mset es) \<subseteq># image_mset objs (mset (list_remove objs e xs))"
    by (simp only: list_remove_image [OF ex])
  from Cons.IH [OF this] ex show ?case by simp
qed

lemma effects_to_remove_present:
  assumes "effects_loop (effect_lists st (status_effects c)) (effect_objects st) c []
             = (objs, c1, effects_to_remove)"
  shows "remove_each objs (effect_lists st (status_effects c)) effects_to_remove
           = Some (effect_lists (fst (process_turn_based_effects st c)) (status_effects c))"
proof -
  from effects_loop_marks [of "effect_lists st (status_effects c)" "effect_objects st" c "[]"] assms
  have "mset effects_to_remove \<subseteq># mset (effect_lists st (status_effects c))" by simp
  then have "image_mset objs (mset effects_to_remove)
               \<subseteq># image_mset objs (mset (effect_lists st (status_effects c)))"
    by (rule image_mset_subseteq_mono)
  from remove_each_succeeds [OF this] assms show ?thesis
    by (simp add: process_turn_based_effects_def)
qed


lemma effects_loop_objects:
  "distinct es \<Longrightarrow>
     fst (effects_loop es objs c r) = (\<lambda>x. if x \<in> set es then decrement (objs x) else objs x)"
proof (induction es arbitrary: objs c r)
  case Nil
  then show ?case by simp
next
  case (Cons e es)
  then have "distinct es" and "e \<notin> set es" by simp_all
  from Cons.IH [OF this(1)] this(2) show ?case
    unfolding effects_loop_Cons by (auto simp: fun_eq_iff)
qed

lemma effects_loop_to_remove:
  "distinct es \<Longrightarrow>
     snd (snd (effects_loop es objs c r))
       = r @ filter (\<lambda>e. duration (decrement (objs e)) = 0) es"
proof (induction es arbitrary: objs c r)
  case Nil
  then show ?case by simp
next
  case (Cons e es)
  then have d: "distinct es" and n: "e \<notin> set es" by simp_all
  from n have same: "filter (\<lambda>x. duration (decrement ((objs(e := decrement (objs e))) x)) = 0) es
                = filter (\<lambda>x. duration (decrement (objs x)) = 0) es"
    by (intro filter_cong) auto
  show ?case
    unfolding effects_loop_Cons Cons.IH [OF d] same by simp
qed

lemma list_remove_first:
  "\<forall>y \<in> set ys. objs y \<noteq> objs x \<Longrightarrow> list_remove objs x (ys @ x # xs) = ys @ xs"
  by (induction ys) simp_all

lemma remove_expired:
  "\<forall>y \<in> set ys. duration (objs y) \<noteq> 0 \<Longrightarrow>
     foldl (\<lambda>xs e. list_remove objs e xs) (ys @ xs) (filter (\<lambda>e. duration (objs e) = 0) xs)
       = ys @ filter (\<lambda>e. duration (objs e) \<noteq> 0) xs"
proof (induction xs arbitrary: ys)
  case Nil
  then show ?case by simp
next
  case (Cons x xs)
  show ?case
  proof (cases "duration (objs x) = 0")
    case True
    with Cons.prems have "\<forall>y \<in> set ys. objs y \<noteq> objs x" by auto
    then have "list_remove objs x (ys @ x # xs) = ys @ xs" by (rule list_remove_first)
    with True Cons.IH [OF Cons.prems] show ?thesis by simp
  next
    case False
    with Cons.prems have "\<forall>y \<in> set (ys @ [x]). duration (objs y) \<noteq> 0" by auto
    from Cons.IH [OF this] False show ?thesis by simp
  qed
qed

lemma kept_filter:
  "filter (\<lambda>e. duration (decrement (objs e)) \<noteq> 0) es = kept objs es"
  unfolding kept_def by (intro filter_cong) (auto simp: decrement_def)

lemma kept_append: "kept objs (xs @ ys) = kept objs xs @ kept objs ys"
  by (simp add: kept_def)

lemma process_objects:
  assumes "distinct (effect_lists st (status_effects c))"
  shows "effect_objects (fst (process_turn_based_effects st c))
           = (\<lambda>x. if x \<in> set (effect_lists st (status_effects c))
                   then decrement (effect_objects st x) else effect_objects st x)"
  using effects_loop_objects [OF assms, of "effect_objects st" c "[]"]
  by (simp add: process_turn_based_effects_def case_prod_beta)

lemma process_lists:
  assumes "distinct (effect_lists st (status_effects c))"
  shows "effect_lists (fst (process_turn_based_effects st c))
           = (effect_lists st)
               (status_effects c := kept (effect_objects st) (effect_lists st (status_effects c)))"
proof -
  let ?L = "effect_lists st (status_effects c)" and ?objs = "effect_objects st"
  let ?objs' = "\<lambda>x. if x \<in> set ?L then decrement (?objs x) else ?objs x"
  have objs: "fst (effects_loop ?L ?objs c []) = ?objs'"
    by (rule effects_loop_objects [OF assms])
  have "snd (snd (effects_loop ?L ?objs c [])) = filter (\<lambda>e. duration (decrement (?objs e)) = 0) ?L"
    by (simp add: effects_loop_to_remove [OF assms])
  also have "\<dots> = filter (\<lambda>e. duration (?objs' e) = 0) ?L"
    by (intro filter_cong) auto
  finally have marks: "snd (snd (effects_loop ?L ?objs c [])) = filter (\<lambda>e. duration (?objs' e) = 0) ?L" .
  have "foldl (\<lambda>xs e. list_remove ?objs' e xs) ?L (filter (\<lambda>e. duration (?objs' e) = 0) ?L)
          = filter (\<lambda>e. duration (?objs' e) \<noteq> 0) ?L"
    using remove_expired [of "[]" ?objs' ?L] by simp
  also have "\<dots> = filter (\<lambda>e. duration (decrement (?objs e)) \<noteq> 0) ?L"
    by (intro filter_cong) auto
  also have "\<dots> = kept ?objs ?L" by (rule kept_filter)
  finally show ?thesis
    by (simp add: process_turn_based_effects_def case_prod_beta objs marks)
qed

lemma process_is_alive: "is_alive (snd (process_turn_based_effects st c)) = is_alive c"
  by (simp add: process_turn_based_effects_def case_prod_beta effects_loop_is_alive)

lemma process_speed: "speed (snd (process_turn_based_effects st c)) = speed c"
  by (simp add: process_turn_based_effects_def case_prod_beta effects_loop_speed)

lemma process_chakra: "chakra (snd (process_turn_based_effects st c)) = chakra c"
  by (simp add: process_turn_based_effects_def case_prod_beta effects_loop_chakra)

lemma process_max_chakra: "max_chakra (snd (process_turn_based_effects st c)) = max_chakra c"
  by (simp add: process_turn_based_effects_def case_prod_beta effects_loop_max_chakra)

lemma process_max_hp: "max_hp (snd (process_turn_based_effects st c)) = max_hp c"
  by (simp add: process_turn_based_effects_def case_prod_beta effects_loop_max_hp)

lemma process_current_hp: "current_hp (snd (process_turn_based_effects st c)) = current_hp c"
  by (simp add: process_turn_based_effects_def case_prod_beta effects_loop_current_hp)

lemma process_status_ref: "status_effects (snd (process_turn_based_effects st c)) = status_effects c"
  by (simp add: process_turn_based_effects_def case_prod_beta effects_loop_status)

lemma process_hp:
  assumes "0 \<le> hp c" and "hp c \<le> max_hp c" and "periodic_values_nonneg st c"
  shows "0 \<le> hp (snd (process_turn_based_effects st c))
       \<and> hp (snd (process_turn_based_effects st c)) \<le> max_hp (snd (process_turn_based_effects st c))"
  using effects_loop_hp [of c "effect_objects st" "effect_lists st (status_effects c)" "[]"] assms
  by (simp add: process_turn_based_effects_def case_prod_beta periodic_values_nonneg_def)

lemma effects_loop_defense: "defense (fst (snd (effects_loop es objs c r))) = defense c"
  by (induction es arbitrary: objs c r) (simp_all add: effects_loop_Cons del: effects_loop.simps(2))

lemma effects_loop_attack: "attack (fst (snd (effects_loop es objs c r))) = attack c"
  by (induction es arbitrary: objs c r) (simp_all add: effects_loop_Cons del: effects_loop.simps(2))

lemma process_defense: "defense (snd (process_turn_based_effects st c)) = defense c"
  by (simp add: process_turn_based_effects_def case_prod_beta effects_loop_defense)

lemma process_attack: "attack (snd (process_turn_based_effects st c)) = attack c"
  by (simp add: process_turn_based_effects_def case_prod_beta effects_loop_attack)

section \<open>Lemmas on the round preparation\<close>

lemma length_shuffle_loop: "length (shuffle_loop rnd i xs) = length xs"
  by (induction rnd i xs rule: shuffle_loop.induct) (simp_all add: Let_def)

lemma mset_shuffle_loop: "i < length xs \<Longrightarrow> mset (shuffle_loop rnd i xs) = mset xs"
proof (induction rnd i xs rule: shuffle_loop.induct)
  case (1 rnd xs)
  then show ?case by simp
next
  case (2 rnd i xs)
  define j where "j = rnd (Suc i) mod (Suc i + 1)"
  have "j < Suc i + 1" unfolding j_def by (rule mod_less_divisor) simp
  with "2.prems" have j: "j < length xs" by simp
  have swap: "mset (xs[Suc i := xs ! j, j := xs ! Suc i]) = mset xs"
    using mset_swap [OF j "2.prems"] by simp
  have "i < length (xs[Suc i := xs ! j, j := xs ! Suc i])" using "2.prems" by simp
  from "2.IH" [OF j_def this] swap show ?case by (simp add: Let_def j_def)
qed

lemma mset_shuffle: "mset (shuffle rnd xs) = mset xs"
proof (cases xs)
  case Nil
  then show ?thesis by (simp add: shuffle_def)
next
  case (Cons x xs')
  then show ?thesis by (simp add: shuffle_def mset_shuffle_loop)
qed

lemma round_start_frame:
  "team_a (round_start s r) = team_a s" "team_b (round_start s r) = team_b s"
  "current_round (round_start s r) = current_round s"
  by (simp_all add: round_start_def case_prod_beta)

lemma round_start_is_alive: "is_alive (heap (round_start s r) x) = is_alive (heap s x)"
  by (simp add: round_start_def case_prod_beta process_is_alive regenerate_chakra_def)

lemma round_start_speed: "speed (heap (round_start s r) x) = speed (heap s x)"
  by (simp add: round_start_def case_prod_beta process_speed regenerate_chakra_def)

lemma rounds_start_frame:
  "team_a (foldl round_start s rs) = team_a s" "team_b (foldl round_start s rs) = team_b s"
  "current_round (foldl round_start s rs) = current_round s"
  by (induction rs arbitrary: s) (simp_all add: round_start_frame)

lemma rounds_start_is_alive: "is_alive (heap (foldl round_start s rs) x) = is_alive (heap s x)"
  by (induction rs arbitrary: s) (simp_all add: round_start_is_alive)

lemma rounds_start_speed: "speed (heap (foldl round_start s rs) x) = speed (heap s x)"
  by (induction rs arbitrary: s) (simp_all add: round_start_speed)

lemma prepare_teams:
  "team_a (prepare_new_round rnd s) = team_a s" "team_b (prepare_new_round rnd s) = team_b s"
  by (simp_all add: prepare_new_round_def calculate_turn_order_def Let_def rounds_start_frame)

lemma prepare_heap:
  "heap (prepare_new_round rnd s) =
     heap (foldl round_start (s\<lparr>current_round := current_round s + 1\<rparr>)
             (characters (team_a s) @ characters (team_b s)))"
  by (simp add: prepare_new_round_def calculate_turn_order_def Let_def)

lemma prepare_store:
  "store (prepare_new_round rnd s) =
     store (foldl round_start (s\<lparr>current_round := current_round s + 1\<rparr>)
              (characters (team_a s) @ characters (team_b s)))"
  by (simp add: prepare_new_round_def calculate_turn_order_def Let_def)

lemma prepare_turn_order:
  "turn_order (prepare_new_round rnd s) =
     sort_key (\<lambda>r. - speed (heap (prepare_new_round rnd s) r))
       (shuffle rnd (filter (\<lambda>r. is_alive (heap (prepare_new_round rnd s) r))
          (characters (team_a s) @ characters (team_b s))))"
  by (simp add: prepare_new_round_def calculate_turn_order_def Let_def rounds_start_frame)

lemma prepare_index: "current_character_index (prepare_new_round rnd s) = 0"
  by (simp add: prepare_new_round_def calculate_turn_order_def Let_def)

lemma prepare_is_alive: "is_alive (heap (prepare_new_round rnd s) r) = is_alive (heap s r)"
  by (simp add: prepare_heap rounds_start_is_alive)

lemma prepare_speed: "speed (heap (prepare_new_round rnd s) r) = speed (heap s r)"
  by (simp add: prepare_heap rounds_start_speed)

lemma prepare_turn_order_before:
  "turn_order (prepare_new_round rnd s) =
     sort_key (\<lambda>r. - speed (heap s r))
       (shuffle rnd (filter (\<lambda>r. is_alive (heap s r))
          (characters (team_a s) @ characters (team_b s))))"
  by (simp add: prepare_turn_order prepare_speed prepare_is_alive)

lemma descending: "sorted (map (\<lambda>r. - f r) xs) = sorted_wrt (\<lambda>x y. (f y :: int) \<le> f x) xs"
  by (simp add: sorted_map)

lemma list_remove_subset: "set (list_remove objs x xs) \<subseteq> set xs"
  by (induction xs) auto

lemma removals_subset: "set (foldl (\<lambda>xs e. list_remove objs e xs) xs es) \<subseteq> set xs"
proof (induction es arbitrary: xs)
  case Nil
  then show ?case by simp
next
  case (Cons e es)
  have "set (foldl (\<lambda>xs e. list_remove objs e xs) (list_remove objs e xs) es)
          \<subseteq> set (list_remove objs e xs)"
    by (rule Cons.IH)
  with list_remove_subset [of objs e xs] show ?case by auto
qed

lemma process_lists_shrink:
  "set (effect_lists (fst (process_turn_based_effects st c)) l) \<subseteq> set (effect_lists st l)"
  using removals_subset by (simp add: process_turn_based_effects_def case_prod_beta)

lemma process_lists_other:
  "status_effects c \<noteq> l \<Longrightarrow>
     effect_lists (fst (process_turn_based_effects st c)) l = effect_lists st l"
  by (simp add: process_turn_based_effects_def case_prod_beta)

lemma process_objects_other:
  "e \<notin> set (effect_lists st (status_effects c)) \<Longrightarrow>
     effect_objects (fst (process_turn_based_effects st c)) e = effect_objects st e"
  by (simp add: process_turn_based_effects_def case_prod_beta effects_loop_elsewhere)

lemma round_start_status_ref:
  "status_effects (heap (round_start s x) y) = status_effects (heap s y)"
  by (simp add: round_start_def case_prod_beta process_status_ref regenerate_chakra_def)

lemma round_start_lists_shrink:
  "set (effect_lists (store (round_start s x)) l) \<subseteq> set (effect_lists (store s) l)"
  using process_lists_shrink by (simp add: round_start_def case_prod_beta)

lemma round_start_heap_other: "x \<noteq> r \<Longrightarrow> heap (round_start s x) r = heap s r"
  by (simp add: round_start_def case_prod_beta)

lemma rounds_start_heap_other: "r \<notin> set rs \<Longrightarrow> heap (foldl round_start s rs) r = heap s r"
  by (induction rs arbitrary: s) (simp_all add: round_start_heap_other)

lemma round_start_apart:
  assumes "is_alive (heap s x) \<longrightarrow>
             status_effects (heap s x) \<noteq> l
             \<and> set (effect_lists (store s) (status_effects (heap s x))) \<inter> E = {}"
  shows "effect_lists (store (round_start s x)) l = effect_lists (store s) l"
    and "e \<in> E \<Longrightarrow> effect_objects (store (round_start s x)) e = effect_objects (store s) e"
proof -
  show "effect_lists (store (round_start s x)) l = effect_lists (store s) l"
    using assms
    by (simp add: round_start_def case_prod_beta process_lists_other regenerate_chakra_def)
  assume "e \<in> E"
  with assms show "effect_objects (store (round_start s x)) e = effect_objects (store s) e"
    by (auto simp: round_start_def case_prod_beta regenerate_chakra_def
          intro!: process_objects_other)
qed

lemma apart_step: "apart s rs l E \<Longrightarrow> apart (round_start s x) rs l E"
  unfolding apart_def
  using round_start_lists_shrink [of s x]
  by (simp add: round_start_is_alive round_start_status_ref) blast

lemma apart_steps: "apart s rs l E \<Longrightarrow> apart (foldl round_start s xs) rs l E"
  by (induction xs arbitrary: s) (simp_all add: apart_step)

lemma apart_Cons:
  "apart s (x # rs) l E \<longleftrightarrow>
     (is_alive (heap s x) \<longrightarrow>
        status_effects (heap s x) \<noteq> l
        \<and> set (effect_lists (store s) (status_effects (heap s x))) \<inter> E = {})
     \<and> apart s rs l E"
  by (simp add: apart_def)

lemma apart_append: "apart s (xs @ ys) l E \<longleftrightarrow> apart s xs l E \<and> apart s ys l E"
  by (auto simp: apart_def)

lemma rounds_start_apart:
  "apart s rs l E \<Longrightarrow>
     effect_lists (store (foldl round_start s rs)) l = effect_lists (store s) l
     \<and> (\<forall>e \<in> E. effect_objects (store (foldl round_start s rs)) e = effect_objects (store s) e)"
proof (induction rs arbitrary: s)
  case Nil
  then show ?case by simp
next
  case (Cons x rs)
  from Cons.prems have x: "is_alive (heap s x) \<longrightarrow>
             status_effects (heap s x) \<noteq> l
             \<and> set (effect_lists (store s) (status_effects (heap s x))) \<inter> E = {}"
    and rest: "apart s rs l E"
    by (simp_all add: apart_Cons)
  from rest have "apart (round_start s x) rs l E" by (rule apart_step)
  from Cons.IH [OF this] round_start_apart [OF x] show ?case by simp
qed

text \<open>
  A round preparation makes one pass for every alive member of the teams. A member
  listed once, whose list holds pairwise distinct effect objects and whose list and
  effect objects no other alive member holds, gets exactly one pass.
\<close>

lemma round_preparation_pass:
  assumes members: "characters (team_a s) @ characters (team_b s) = before @ r # after"
    and once: "r \<notin> set before" "r \<notin> set after"
    and alive: "is_alive (heap s r)"
    and entries: "distinct (effect_lists (store s) (status_effects (heap s r)))"
    and others: "apart s (before @ after) (status_effects (heap s r))
                   (set (effect_lists (store s) (status_effects (heap s r))))"
  shows "effect_lists (store (prepare_new_round rnd s)) (status_effects (heap s r))
           = kept (effect_objects (store s)) (effect_lists (store s) (status_effects (heap s r)))"
    and "\<forall>e \<in> set (effect_lists (store s) (status_effects (heap s r))).
           effect_objects (store (prepare_new_round rnd s)) e
             = decrement (effect_objects (store s) e)"
proof -
  let ?l = "status_effects (heap s r)"
  let ?L = "effect_lists (store s) ?l"
  let ?s1 = "s\<lparr>current_round := current_round s + 1\<rparr>"
  let ?sb = "foldl round_start ?s1 before"
  let ?c = "regenerate_chakra (heap ?sb r)"
  let ?sr = "round_start ?sb r"
  let ?sa = "foldl round_start ?sr after"
  have final: "store (prepare_new_round rnd s) = store ?sa"
    by (simp add: prepare_store members)
  from others have a1: "apart ?s1 before ?l (set ?L)" and a2: "apart ?s1 after ?l (set ?L)"
    by (simp_all add: apart_append apart_def)
  note b = rounds_start_apart [OF a1]
  have hb: "heap ?sb r = heap s r"
    using once(1) by (simp add: rounds_start_heap_other)
  have lb: "effect_lists (store ?sb) ?l = ?L" using b by simp
  have ob: "effect_objects (store ?sb) e = effect_objects (store s) e" if "e \<in> set ?L" for e
    using b that by simp
  have cl: "status_effects ?c = ?l" by (simp add: regenerate_chakra_def hb)
  have d: "distinct (effect_lists (store ?sb) (status_effects ?c))"
    using entries by (simp add: cl lb)
  have sr: "store ?sr = fst (process_turn_based_effects (store ?sb) ?c)"
    using alive by (simp add: round_start_def case_prod_beta hb)
  have lr: "effect_lists (store ?sr) ?l = kept (effect_objects (store s)) ?L"
  proof -
    have "effect_lists (store ?sr) ?l = kept (effect_objects (store ?sb)) ?L"
      unfolding sr process_lists [OF d] by (simp add: cl lb)
    also have "\<dots> = kept (effect_objects (store s)) ?L"
      unfolding kept_def by (intro filter_cong) (simp_all add: ob)
    finally show ?thesis .
  qed
  have or: "effect_objects (store ?sr) e = decrement (effect_objects (store s) e)"
    if "e \<in> set ?L" for e
    unfolding sr process_objects [OF d] using that by (simp add: cl lb ob)
  have "apart ?sb after ?l (set ?L)" using a2 by (rule apart_steps)
  then have "apart ?sr after ?l (set ?L)" by (rule apart_step)
  note a = rounds_start_apart [OF this]
  show "effect_lists (store (prepare_new_round rnd s)) ?l = kept (effect_objects (store s)) ?L"
    using a lr by (simp add: final)
  show "\<forall>e \<in> set ?L. effect_objects (store (prepare_new_round rnd s)) e
           = decrement (effect_objects (store s) e)"
    using a or by (simp add: final)
qed

section \<open>Lemmas on the mutators\<close>

lemma take_damage_keeps_flag:
  assumes "is_alive c \<longleftrightarrow> 0 < hp c"
  shows "is_alive (fst (take_damage c amount)) \<longleftrightarrow> 0 < hp (fst (take_damage c amount))"
  using assms by (simp add: take_damage_def Let_def)

lemma heal_keeps_flag:
  assumes "is_alive c \<longleftrightarrow> 0 < hp c" and "current_hp c = hp c" and "hp c \<le> max_hp c"
    and "0 \<le> amount"
  shows "is_alive (fst (heal c amount)) \<longleftrightarrow> 0 < hp (fst (heal c amount))"
  using assms by (simp add: heal_def Let_def)

section \<open>Lemmas on the bounds\<close>

lemma take_damage_bounds:
  assumes "bounds c" and "internal_bounds c" and "0 \<le> amount"
  shows "bounds (fst (take_damage c amount)) \<and> internal_bounds (fst (take_damage c amount))"
  using assms by (simp add: take_damage_def bounds_def internal_bounds_def Let_def)

lemma heal_bounds:
  assumes "bounds c" and "internal_bounds c" and "0 \<le> amount"
  shows "bounds (fst (heal c amount)) \<and> internal_bounds (fst (heal c amount))"
  using assms by (simp add: heal_def bounds_def internal_bounds_def Let_def)

lemma deduct_cost_bounds:
  assumes "bounds c" and "internal_bounds c"
  shows "bounds (deduct_cost sk c) \<and> internal_bounds (deduct_cost sk c)"
  using assms by (simp add: deduct_cost_def bounds_def internal_bounds_def)

lemma regenerate_bounds:
  assumes "bounds c" and "internal_bounds c" and "0 \<le> chakra_regen c"
  shows "bounds (regenerate_chakra c) \<and> internal_bounds (regenerate_chakra c)"
  using assms by (simp add: regenerate_chakra_def bounds_def internal_bounds_def)

lemma process_bounds:
  assumes "bounds c" and "internal_bounds c" and "periodic_values_nonneg st c"
  shows "bounds (snd (process_turn_based_effects st c))
       \<and> internal_bounds (snd (process_turn_based_effects st c))"
proof -
  from assms have "0 \<le> hp c" "hp c \<le> max_hp c" by (simp_all add: bounds_def)
  from process_hp [OF this assms(3)] assms(1,2) show ?thesis
    by (simp add: bounds_def internal_bounds_def process_chakra process_max_chakra
          process_max_hp process_current_hp)
qed

section \<open>Lemmas on action resolution\<close>

lemma resolve_attack:
  "action_type act = ATTACK \<Longrightarrow> resolve act h = execute_attack act (blank_result act) h"
  by (simp add: resolve_def blank_result_def)

lemma resolve_skill:
  "action_type act = SKILL \<Longrightarrow> resolve act h = execute_skill act (blank_result act) h"
  by (simp add: resolve_def blank_result_def)

lemma take_damage_hp_synced:
  assumes "is_alive c" and "current_hp c = hp c" and "0 \<le> amount"
  shows "hp (fst (take_damage c amount)) = max 0 (hp c - amount)"
  using assms by (simp add: take_damage_def Let_def)

lemma attack_on_synced_target:
  assumes "action_type act = ATTACK" and "target act = Some t" and "is_alive (h t)"
    and "current_hp (h t) = hp (h t)"
  shows "hp (fst (resolve act h) t)
           = max 0 (hp (h t) - max 1 (attack (h (character act)) - defense (h t) div 2))"
proof -
  have "0 \<le> max 1 (attack (h (character act)) - defense (h t) div 2)" by simp
  from take_damage_hp_synced [OF assms(3,4) this] assms(1,2,3) show ?thesis
    by (simp add: resolve_attack execute_attack_def Let_def)
qed

lemma take_damage_chakra: "chakra (fst (take_damage c amount)) = chakra c"
  by (simp add: take_damage_def Let_def)

lemma heal_chakra: "chakra (fst (heal c amount)) = chakra c"
  by (simp add: heal_def Let_def)

lemma apply_skill_effect_chakra:
  "chakra (fst (apply_skill_effect caster t effect st) x) = chakra (fst st x)"
  by (cases effect; cases st) (simp_all add: Let_def take_damage_chakra heal_chakra)

lemma apply_effects_chakra:
  "chakra (fst (foldl (\<lambda>st effect. apply_skill_effect caster t effect st) st es) x)
     = chakra (fst st x)"
  by (induction es arbitrary: st) (simp_all add: apply_skill_effect_chakra)

lemma execute_skill_hit:
  assumes "skill act = Some sk" and "target act = Some t" and "is_alive (h t)"
  shows "fst (execute_skill act result h)
           = fst (foldl (\<lambda>st effect. apply_skill_effect (character act) t effect st)
                    (h(character act := deduct_cost sk (h (character act))), result) (effects sk))"
    and "success (snd (execute_skill act result h))"
    and "messages (snd (execute_skill act result h)) \<noteq> []"
  using assms by (simp_all add: execute_skill_def Let_def add_message_def)

lemma execute_skill_miss:
  assumes "skill act = Some sk" and "target act = None \<or> \<not> is_alive (h (the (target act)))"
  shows "fst (execute_skill act result h) = h"
    and "\<not> success (snd (execute_skill act result h))"
    and "messages (snd (execute_skill act result h)) \<noteq> []"
  using assms by (simp_all add: execute_skill_def Let_def add_message_def)

lemma chakra_after_skill:
  assumes "skill act = Some sk" and "target act = Some t" and "is_alive (h t)"
  shows "chakra (fst (execute_skill act result h) (character act))
           = (if 0 < skill_cost sk then max 0 (chakra (h (character act)) - skill_cost sk)
              else chakra (h (character act)))"
  unfolding execute_skill_hit(1) [of act sk t h result, OF assms]
  by (simp add: apply_effects_chakra deduct_cost_def)

section \<open>Evaluation of the concrete states\<close>

lemma fighter_fields:
  "hp fighter = 100" "max_hp fighter = 100" "chakra fighter = 100" "max_chakra fighter = 100"
  "current_hp fighter = 100" "is_alive fighter" "chakra_regen fighter = 10"
  "status_effects fighter = 0" "attack fighter = 50" "defense fighter = 30"
  by (simp_all add: fighter_def post_init_def)

lemma arena_lists:
  "effect_lists arena 0 = []" "effect_lists arena (Suc 0) = [0]" "effect_lists arena 2 = [Suc 0, 2]"
  "effect_lists arena 3 = [3, 3]" "effect_lists arena 4 = [4]"
  by (simp_all add: arena_def)

lemma arena_objects:
  "effect_objects arena 0 = poison 10 2" "effect_objects arena (Suc 0) = poison 5 1"
  "effect_objects arena 2 = regeneration 5 2" "effect_objects arena 3 = poison 5 2"
  "effect_objects arena 4 = poison (- 10) 2"
  by (simp_all add: arena_def)

lemma poison_fields:
  "effect_type (poison v d) = DOT" "effect_value (poison v d) = v" "duration (poison v d) = d"
  by (simp_all add: poison_def)

lemma regeneration_fields:
  "effect_type (regeneration v d) = HOT" "effect_value (regeneration v d) = v"
  "duration (regeneration v d) = d"
  by (simp_all add: regeneration_def)

lemma trio_members:
  "characters (team_a trio) = [0]" "characters (team_b trio) = [1, 2]"
  by (simp_all add: trio_def)

lemma trio_heap: "heap trio 0 = fighter" "heap trio (Suc 0) = rival" "heap trio 2 = fallen"
  by (simp_all add: trio_def)

lemma cast_alive: "is_alive fighter" "is_alive rival" "\<not> is_alive fallen"
  by (simp_all add: fighter_def rival_def fallen_def post_init_def)

lemma trio_alive:
  "filter (\<lambda>r. is_alive (heap trio r)) (characters (team_a trio) @ characters (team_b trio)) = [0, 1]"
  by (simp add: trio_members trio_heap cast_alive)

lemma trio_speed: "speed (heap trio r) = 50"
  by (simp add: trio_def fighter_def rival_def fallen_def post_init_def)

lemma trio_order:
  "turn_order (prepare_new_round (\<lambda>_. 0) trio) = [1, 0]"
  "turn_order (prepare_new_round (\<lambda>_. 1) trio) = [0, 1]"
  unfolding prepare_turn_order_before trio_alive
  by (simp_all add: shuffle_def Let_def trio_speed)

lemma duel_simps:
  "heap (duel a b) 0 = a" "heap (duel a b) (Suc 0) = b" "store (duel a b) = arena"
  "characters (team_a (duel a b)) = [0]" "characters (team_b (duel a b)) = [Suc 0]"
  by (simp_all add: duel_def duel_heap_def)

lemma fallen_simps: "hp fallen = 0" "\<not> is_alive fallen"
  by (simp_all add: fallen_def)

lemma fighter_simps: "hp fighter = 100" "is_alive fighter"
  by (simp_all add: fighter_def post_init_def)

lemma pass_on_empty_list:
  "effect_lists st (status_effects c) = [] \<Longrightarrow> process_turn_based_effects st c = (st, c)"
  by (cases st) (simp add: process_turn_based_effects_def fun_upd_idem)

lemma pass_on_poison:
  assumes "effect_lists st (status_effects c) = [e]" and "effect_objects st e = poison v 2"
  shows "hp (snd (process_turn_based_effects st c)) = max 0 (hp c - v)"
    and "effect_lists (fst (process_turn_based_effects st c)) (status_effects c) = [e]"
    and "effect_objects (fst (process_turn_based_effects st c)) e = poison v 1"
  using assms by (simp_all add: process_turn_based_effects_def Let_def poison_def)

lemma round1_duel:
  assumes "is_alive a" and "status_effects a = 0" and "is_alive b" and "status_effects b = Suc 0"
  shows "heap (prepare_new_round rnd (duel a b)) 0 = regenerate_chakra a"
    and "heap (prepare_new_round rnd (duel a b)) (Suc 0)
           = snd (process_turn_based_effects arena (regenerate_chakra b))"
proof -
  have a: "process_turn_based_effects arena (regenerate_chakra a) = (arena, regenerate_chakra a)"
    using assms by (intro pass_on_empty_list) (simp add: regenerate_chakra_def arena_lists)
  show "heap (prepare_new_round rnd (duel a b)) 0 = regenerate_chakra a"
    and "heap (prepare_new_round rnd (duel a b)) (Suc 0)
           = snd (process_turn_based_effects arena (regenerate_chakra b))"
    using assms
    by (simp_all add: prepare_heap duel_simps round_start_def a case_prod_beta)
qed

lemma round1_victim:
  "hp (heap (prepare_new_round rnd (duel fighter victim)) (Suc 0)) = 90"
  "current_hp (heap (prepare_new_round rnd (duel fighter victim)) (Suc 0)) = 100"
  "is_alive (heap (prepare_new_round rnd (duel fighter victim)) (Suc 0))"
  "defense (heap (prepare_new_round rnd (duel fighter victim)) (Suc 0)) = 30"
  "attack (heap (prepare_new_round rnd (duel fighter victim)) 0) = 50"
proof -
  have v: "is_alive victim" "status_effects victim = Suc 0"
    by (simp_all add: victim_def fighter_fields)
  note r = round1_duel [OF fighter_fields(6) fighter_fields(8) v, of rnd]
  have l: "effect_lists arena (status_effects (regenerate_chakra victim)) = [0]"
    by (simp add: regenerate_chakra_def v arena_lists)
  show "hp (heap (prepare_new_round rnd (duel fighter victim)) (Suc 0)) = 90"
    unfolding r pass_on_poison(1) [OF l arena_objects(1)]
    by (simp add: regenerate_chakra_def victim_def fighter_fields)
  show "current_hp (heap (prepare_new_round rnd (duel fighter victim)) (Suc 0)) = 100"
    unfolding r process_current_hp by (simp add: regenerate_chakra_def victim_def fighter_fields)
  show "is_alive (heap (prepare_new_round rnd (duel fighter victim)) (Suc 0))"
    unfolding r process_is_alive by (simp add: regenerate_chakra_def v)
  show "defense (heap (prepare_new_round rnd (duel fighter victim)) (Suc 0)) = 30"
    unfolding r process_defense by (simp add: regenerate_chakra_def victim_def fighter_fields)
  show "attack (heap (prepare_new_round rnd (duel fighter victim)) 0) = 50"
    unfolding r by (simp add: regenerate_chakra_def fighter_fields)
qed

lemma round1_poisoned:
  "hp (heap (prepare_new_round rnd (duel fighter poisoned)) (Suc 0)) = 0"
  "is_alive (heap (prepare_new_round rnd (duel fighter poisoned)) (Suc 0))"
  "is_alive (heap (prepare_new_round rnd (duel fighter poisoned)) 0)"
proof -
  have v: "is_alive poisoned" "status_effects poisoned = Suc 0" "hp poisoned = 10"
    by (simp_all add: poisoned_def fighter_fields)
  note r = round1_duel [OF fighter_fields(6) fighter_fields(8) v(1,2), of rnd]
  have l: "effect_lists arena (status_effects (regenerate_chakra poisoned)) = [0]"
    by (simp add: regenerate_chakra_def v arena_lists)
  show "hp (heap (prepare_new_round rnd (duel fighter poisoned)) (Suc 0)) = 0"
    unfolding r pass_on_poison(1) [OF l arena_objects(1)]
    by (simp add: regenerate_chakra_def v)
  show "is_alive (heap (prepare_new_round rnd (duel fighter poisoned)) (Suc 0))"
    unfolding r process_is_alive by (simp add: regenerate_chakra_def v)
  show "is_alive (heap (prepare_new_round rnd (duel fighter poisoned)) 0)"
    unfolding r by (simp add: regenerate_chakra_def fighter_fields)
qed

lemma cast_fields:
  "action_type (cast sk) = SKILL" "skill (cast sk) = Some sk" "character (cast sk) = 0"
  "target (cast sk) = Some (Suc 0)"
  by (simp_all add: cast_def)

lemma duel_heap_simps: "duel_heap a b 0 = a" "duel_heap a b (Suc 0) = b"
  by (simp_all add: duel_heap_def)

lemma fireball_fields:
  "0 < c \<Longrightarrow> cost (fireball c) = c" "0 < c \<Longrightarrow> skill_cost (fireball c) = c"
  "effects (fireball c) = [DamageEffect 20 50]"
  by (simp_all add: fireball_def skill_post_init_def skill_cost_def)

lemma refund_fields:
  "cost refund = - 5" "chakra_cost refund = - 5" "skill_cost refund = - 5"
  by (simp_all add: refund_def skill_post_init_def skill_cost_def)

lemma tired_fields: "chakra tired = 50" "is_alive tired" "attack tired = 50"
  by (simp_all add: tired_def fighter_fields)

lemma rival_fields: "is_alive rival" "hp rival = 100" "current_hp rival = 100"
  by (simp_all add: rival_def fighter_fields)

lemma treated_fields: "status_effects treated = 2" "hp treated = 100" "max_hp treated = 100"
  by (simp_all add: treated_def fighter_fields)

lemma twice_poisoned_fields: "status_effects twice_poisoned = 3" "hp twice_poisoned = 100"
  by (simp_all add: twice_poisoned_def fighter_fields)

lemma cursed_fields:
  "status_effects cursed = 4" "hp cursed = 100" "max_hp cursed = 100" "chakra cursed = 100"
  "max_chakra cursed = 100"
  by (simp_all add: cursed_def fighter_fields)

lemma pass_twice_poisoned:
  "effect_lists (fst (process_turn_based_effects arena twice_poisoned)) 3 = [3]"
  "duration (effect_objects (fst (process_turn_based_effects arena twice_poisoned)) 3) = 0"
  by (simp_all add: process_turn_based_effects_def twice_poisoned_fields arena_lists
        arena_objects poison_def Let_def)

text \<open>
  A list shared by two characters, as \<^verbatim>\<open>Character.clone\<close> leaves it, is passed
  twice in one round preparation: the effect of duration 2 is gone after it.
\<close>

lemma clone_victim: "clone victim = victim"
  by (simp add: clone_def post_init_def victim_def fighter_fields)

lemma shared_list_passed_twice:
  "status_effects (heap (duel victim (clone victim)) 0) = 1"
  "status_effects (heap (duel victim (clone victim)) 1) = 1"
  "effect_lists (store (duel victim (clone victim))) 1 = [0]"
  "duration (effect_objects (store (duel victim (clone victim))) 0) = 2"
  "effect_lists (store (prepare_new_round rnd (duel victim (clone victim)))) 1 = []"
  unfolding clone_victim
  by (simp_all add: prepare_store duel_simps round_start_def case_prod_beta
        regenerate_chakra_def process_turn_based_effects_def victim_def fighter_fields
        arena_lists arena_objects poison_def Let_def)

section \<open>Properties\<close>

text \<open>
  C10. For a character whose \<open>is_alive\<close> flag is false, \<open>take_damage\<close> and \<open>heal\<close>
  return 0 and give back the very same character, every field unchanged, for every
  non-negative amount: a defeated character neither loses hp nor is revived.
\<close>

theorem dead_character_untouched:
  assumes "\<not> is_alive c" and "0 \<le> amount"
  shows "take_damage c amount = (c, 0) \<and> heal c amount = (c, 0)"
  using assms by (simp add: take_damage_def heal_def)

theorem dead_character_untouched_witness:
  "\<not> is_alive fallen \<and> (0::int) \<le> 30
     \<and> take_damage fallen 30 = (fallen, 0) \<and> heal fallen 30 = (fallen, 0)"
  using dead_character_untouched [of fallen 30] by (simp add: fallen_def)

text \<open>
  C6, as stated, fails when an effect object is attached twice: the pass visits it
  twice, so an effect of duration 2 reaches 0 in one pass, is queued once, and one of
  its two entries is left in the list with duration 0.
\<close>

theorem effect_attached_twice:
  "effect_lists arena (status_effects twice_poisoned) = [3, 3]
   \<and> duration (effect_objects arena 3) = 2
   \<and> effect_lists (fst (process_turn_based_effects arena twice_poisoned))
         (status_effects twice_poisoned) = [3]
   \<and> duration (effect_objects (fst (process_turn_based_effects arena twice_poisoned)) 3) = 0"
  by (simp add: pass_twice_poisoned twice_poisoned_fields arena_lists arena_objects poison_fields)

text \<open>
  C6, amended. When the entries of the character's effect list are pairwise distinct
  effect objects, one pass of the round-start processing over the character removes
  an effect whose remaining duration is 1 and keeps an effect whose remaining duration
  is 2, with remaining duration 1. Stated for any effect \<open>e\<close> at any place of the list:
  the list after the pass is what the pass keeps of the entries before \<open>e\<close>, then
  nothing (duration 1) or \<open>e\<close> (duration 2), then what it keeps of the entries after
  \<open>e\<close>; and every effect of the list has been decremented once.
\<close>

theorem status_expiry:
  assumes "effect_lists st (status_effects c) = before @ e # after"
    and "distinct (before @ e # after)"
  shows "(duration (effect_objects st e) = 1 \<longrightarrow>
            effect_lists (fst (process_turn_based_effects st c)) (status_effects c)
              = kept (effect_objects st) before @ kept (effect_objects st) after)
       \<and> (duration (effect_objects st e) = 2 \<longrightarrow>
            effect_lists (fst (process_turn_based_effects st c)) (status_effects c)
              = kept (effect_objects st) before @ e # kept (effect_objects st) after
            \<and> effect_objects (fst (process_turn_based_effects st c)) e
              = (effect_objects st e)\<lparr>duration := 1\<rparr>)
       \<and> (\<forall>x \<in> set (before @ e # after).
            effect_objects (fst (process_turn_based_effects st c)) x
              = decrement (effect_objects st x))"
proof -
  from assms have d: "distinct (effect_lists st (status_effects c))" by simp
  have l: "effect_lists (fst (process_turn_based_effects st c)) (status_effects c)
             = kept (effect_objects st) before @ kept (effect_objects st) [e]
                 @ kept (effect_objects st) after"
    using kept_append [of "effect_objects st" "[e]" after]
    by (simp add: process_lists [OF d] assms(1) kept_append)
  have o: "effect_objects (fst (process_turn_based_effects st c)) x
             = decrement (effect_objects st x)" if "x \<in> set (before @ e # after)" for x
    using that by (simp add: process_objects [OF d] assms(1))
  have one: "kept (effect_objects st) [e] = []" if "duration (effect_objects st e) = 1"
    using that by (simp add: kept_def)
  have two: "kept (effect_objects st) [e] = [e]"
      "decrement (effect_objects st e) = (effect_objects st e)\<lparr>duration := 1\<rparr>"
    if "duration (effect_objects st e) = 2"
    using that by (simp_all add: kept_def decrement_def)
  from l o one two show ?thesis by simp
qed

theorem status_expiry_witness:
  "effect_lists arena (status_effects treated) = [] @ 1 # [2]
   \<and> effect_lists arena (status_effects treated) = [1] @ 2 # []
   \<and> distinct [1, 2 :: nat]
   \<and> duration (effect_objects arena 1) = 1
   \<and> duration (effect_objects arena 2) = 2
   \<and> effect_lists (fst (process_turn_based_effects arena treated)) (status_effects treated) = [2]
   \<and> effect_objects (fst (process_turn_based_effects arena treated)) 2 = regeneration 5 1"
proof -
  have l1: "effect_lists arena (status_effects treated) = [] @ Suc 0 # [2]"
    and l2: "effect_lists arena (status_effects treated) = [Suc 0] @ 2 # []"
    by (simp_all add: treated_fields arena_lists)
  have d1: "distinct ([] @ Suc 0 # [2 :: nat])" and d2: "distinct ([Suc 0] @ 2 # ([] :: nat list))"
    by simp_all
  have k: "kept (effect_objects arena) [] = []" "kept (effect_objects arena) [Suc 0] = []"
    "kept (effect_objects arena) [2] = [2]"
    by (simp_all add: kept_def arena_objects poison_fields regeneration_fields)
  have u1: "duration (effect_objects arena (Suc 0)) = 1"
    and u2: "duration (effect_objects arena 2) = 2"
    by (simp_all add: arena_objects poison_fields regeneration_fields)
  note a = status_expiry [OF l1 d1, THEN conjunct1, THEN mp, OF u1]
  note b = status_expiry [OF l2 d2, THEN conjunct2, THEN conjunct1, THEN mp, OF u2]
  have "effect_lists (fst (process_turn_based_effects arena treated)) (status_effects treated) = [2]"
    using a by (simp add: k)
  moreover have "effect_objects (fst (process_turn_based_effects arena treated)) 2 = regeneration 5 1"
    using b [THEN conjunct2] by (simp add: arena_objects regeneration_def)
  ultimately show ?thesis using l1 u1 u2 by simp
qed

text \<open>
  C1. Evaluation at the failing input: an alive character with 10 hp carries a
  damage-over-time effect of 10. After the round preparation its hp is 0 and its
  \<open>is_alive\<close> flag is still true, and the battle is not over. The mutator
  \<open>take_damage\<close> keeps the flag equal to \<open>0 < hp\<close> (lemma \<open>take_damage_keeps_flag\<close>);
  the round-start pass does not go through it.
\<close>

theorem dot_kill_keeps_alive_flag:
  "hp (heap (prepare_new_round (\<lambda>_. 0) (duel fighter poisoned)) 1) = 0
   \<and> is_alive (heap (prepare_new_round (\<lambda>_. 0) (duel fighter poisoned)) 1)
   \<and> \<not> is_battle_over (prepare_new_round (\<lambda>_. 0) (duel fighter poisoned))"
  by (simp add: round1_poisoned is_battle_over_def team_alive_def prepare_teams duel_simps)

text \<open>
  C9. After a round preparation the turn order is a permutation of the alive members
  of the two teams, each as often as it is listed (so no dead character appears, and
  no character twice when none is listed twice); it is in non-increasing order of
  speed; among characters of equal speed the order is the one the shuffle produced,
  a function of the random draws \<open>rnd\<close> alone; and the cursor is 0. The preparation
  changes neither the membership nor any \<open>is_alive\<close> flag, so the alive characters are
  the same before and after it.
\<close>

theorem turn_order_after_preparation:
  assumes "s' = prepare_new_round rnd s"
    and "members = characters (team_a s') @ characters (team_b s')"
    and "alive = filter (\<lambda>r. is_alive (heap s' r)) members"
  shows "mset (turn_order s') = mset alive
       \<and> sorted_wrt (\<lambda>x y. speed (heap s' y) \<le> speed (heap s' x)) (turn_order s')
       \<and> (\<forall>k. filter (\<lambda>r. speed (heap s' r) = k) (turn_order s')
                = filter (\<lambda>r. speed (heap s' r) = k) (shuffle rnd alive))
       \<and> current_character_index s' = 0
       \<and> (distinct members \<longrightarrow> distinct (turn_order s'))
       \<and> members = characters (team_a s) @ characters (team_b s)
       \<and> alive = filter (\<lambda>r. is_alive (heap s r)) members"
proof -
  have order: "turn_order s' = sort_key (\<lambda>r. - speed (heap s' r)) (shuffle rnd alive)"
    using assms by (simp add: prepare_turn_order prepare_teams)
  have perm: "mset (turn_order s') = mset alive"
    by (simp add: order mset_shuffle)
  have "sorted (map (\<lambda>r. - speed (heap s' r)) (turn_order s'))"
    unfolding order by (rule sorted_sort_key)
  then have desc: "sorted_wrt (\<lambda>x y. speed (heap s' y) \<le> speed (heap s' x)) (turn_order s')"
    by (simp add: descending)
  have ties: "filter (\<lambda>r. speed (heap s' r) = k) (turn_order s')
                = filter (\<lambda>r. speed (heap s' r) = k) (shuffle rnd alive)" for k
    using sort_key_stable [of "\<lambda>r. - speed (heap s' r)" "- k" "shuffle rnd alive"]
    by (simp add: order)
  have dist: "distinct (turn_order s')" if "distinct members"
  proof -
    from that have "distinct alive" by (simp add: assms(3))
    with mset_eq_imp_distinct_iff [OF perm] show ?thesis by simp
  qed
  have same: "members = characters (team_a s) @ characters (team_b s)"
    "alive = filter (\<lambda>r. is_alive (heap s r)) members"
    using assms by (simp_all add: prepare_teams prepare_is_alive)
  from perm desc ties dist same show ?thesis by (simp add: assms(1) prepare_index)
qed

theorem turn_order_after_preparation_witness:
  "distinct (characters (team_a trio) @ characters (team_b trio))
   \<and> turn_order (prepare_new_round (\<lambda>_. 0) trio) = [1, 0]
   \<and> turn_order (prepare_new_round (\<lambda>_. 1) trio) = [0, 1]
   \<and> distinct (turn_order (prepare_new_round (\<lambda>_. 0) trio))
   \<and> current_character_index (prepare_new_round (\<lambda>_. 0) trio) = 0"
proof -
  have d: "distinct (characters (team_a trio) @ characters (team_b trio))"
    by (simp add: trio_members)
  then have d': "distinct (characters (team_a (prepare_new_round (\<lambda>_. 0) trio))
                    @ characters (team_b (prepare_new_round (\<lambda>_. 0) trio)))"
    by (simp only: prepare_teams)
  note t = turn_order_after_preparation [OF refl refl refl, of "\<lambda>_. 0" trio]
  have i: "current_character_index (prepare_new_round (\<lambda>_. 0) trio) = 0"
    by (rule t [THEN conjunct2, THEN conjunct2, THEN conjunct2, THEN conjunct1])
  have o: "distinct (turn_order (prepare_new_round (\<lambda>_. 0) trio))"
    by (rule mp [OF t [THEN conjunct2, THEN conjunct2, THEN conjunct2, THEN conjunct2,
                       THEN conjunct1] d'])
  show ?thesis by (intro conjI d trio_order i o)
qed

text \<open>
  C8. When every member of team A has hp 0 and is not alive, and team B has a member
  with hp above 0, the battle is over and the winning team is team B.
\<close>

theorem last_team_standing:
  assumes "\<forall>r \<in> set (characters (team_a s)). hp (heap s r) = 0 \<and> \<not> is_alive (heap s r)"
    and "\<exists>r \<in> set (characters (team_b s)). hp (heap s r) > 0"
  shows "is_battle_over s \<and> get_winning_team s = Some (team_b s)"
proof -
  from assms(1) have "\<not> team_alive s (team_a s)"
    by (simp add: team_alive_def list_ex_iff)
  then show ?thesis by (simp add: is_battle_over_def get_winning_team_def)
qed

theorem last_team_standing_witness:
  "characters (team_a (duel fallen fighter)) = [0]
   \<and> hp (heap (duel fallen fighter) 0) = 0 \<and> \<not> is_alive (heap (duel fallen fighter) 0)
   \<and> characters (team_b (duel fallen fighter)) = [1]
   \<and> hp (heap (duel fallen fighter) 1) > 0
   \<and> is_battle_over (duel fallen fighter)
   \<and> get_winning_team (duel fallen fighter) = Some (team_b (duel fallen fighter))"
proof -
  have a: "\<forall>r \<in> set (characters (team_a (duel fallen fighter))).
       hp (heap (duel fallen fighter) r) = 0 \<and> \<not> is_alive (heap (duel fallen fighter) r)"
    by (simp add: duel_simps fallen_simps)
  have b: "\<exists>r \<in> set (characters (team_b (duel fallen fighter))). hp (heap (duel fallen fighter) r) > 0"
    by (simp add: duel_simps fighter_simps)
  note w = last_team_standing [OF a b]
  from w [THEN conjunct1] w [THEN conjunct2] show ?thesis
    by (simp add: duel_simps fallen_simps fighter_simps)
qed

text \<open>
  C4. Evaluation at the failing input: with the only member of each team not alive,
  the battle is over and \<open>get_winning_team\<close> returns team B, not \<open>None\<close>.
\<close>

theorem wipe_reports_team_b:
  "characters (team_a (duel fallen fallen)) = [0]
   \<and> characters (team_b (duel fallen fallen)) = [1]
   \<and> \<not> is_alive (heap (duel fallen fallen) 0)
   \<and> \<not> is_alive (heap (duel fallen fallen) 1)
   \<and> is_battle_over (duel fallen fallen)
   \<and> get_winning_team (duel fallen fallen) = Some (team_b (duel fallen fallen))
   \<and> get_winning_team (duel fallen fallen) \<noteq> None"
  by (simp add: get_winning_team_def is_battle_over_def team_alive_def duel_simps fallen_simps)

text \<open>
  C2, as stated, fails: the clamps of the source are one-sided, so a negative amount,
  regeneration rate or periodic value takes hp or chakra out of its bounds; and
  \<open>take_damage\<close> and \<open>heal\<close> compute the new hp from the internal copy
  \<open>current_hp\<close>, so a copy outside \<open>[0, max_hp]\<close> does the same.
\<close>

theorem bounds_broken_by_negative_amounts:
  "bounds fighter
   \<and> \<not> bounds (fst (take_damage fighter (- 5)))
   \<and> \<not> bounds (fst (heal fighter (- 200)))
   \<and> bounds drained \<and> \<not> bounds (regenerate_chakra drained)
   \<and> bounds cursed
   \<and> \<not> bounds (snd (process_turn_based_effects arena cursed))
   \<and> bounds stale \<and> \<not> bounds (fst (take_damage stale 10))"
  by (simp add: bounds_def take_damage_def heal_def regenerate_chakra_def
        process_turn_based_effects_def drained_def stale_def cursed_fields arena_lists
        arena_objects poison_def fighter_fields Let_def)

text \<open>
  C2, amended. When the bounds hold for hp, for its internal copy \<open>current_hp\<close> and
  for chakra, they hold again after \<open>take_damage\<close> and after \<open>heal\<close> with a
  non-negative amount, after the deduction of a skill's cost (whatever the cost),
  after the chakra regeneration with a non-negative regeneration rate, and after the
  round-start pass over effects whose periodic (DOT, HOT) values are non-negative.
\<close>

theorem bounds_preserved:
  assumes "bounds c" and "internal_bounds c"
  shows "(0 \<le> amount \<longrightarrow>
            bounds (fst (take_damage c amount)) \<and> internal_bounds (fst (take_damage c amount)))
       \<and> (0 \<le> amount \<longrightarrow>
            bounds (fst (heal c amount)) \<and> internal_bounds (fst (heal c amount)))
       \<and> bounds (deduct_cost sk c) \<and> internal_bounds (deduct_cost sk c)
       \<and> (0 \<le> chakra_regen c \<longrightarrow>
            bounds (regenerate_chakra c) \<and> internal_bounds (regenerate_chakra c))
       \<and> (periodic_values_nonneg st c \<longrightarrow>
            bounds (snd (process_turn_based_effects st c))
            \<and> internal_bounds (snd (process_turn_based_effects st c)))"
  using take_damage_bounds [OF assms] heal_bounds [OF assms] deduct_cost_bounds [OF assms]
    regenerate_bounds [OF assms] process_bounds [OF assms]
  by blast

theorem bounds_preserved_witness:
  "bounds victim \<and> internal_bounds victim
   \<and> (0::int) \<le> 30
   \<and> 0 \<le> chakra_regen victim
   \<and> periodic_values_nonneg arena victim
   \<and> bounds (fst (take_damage victim 30))
   \<and> bounds (fst (heal victim 30))
   \<and> bounds (deduct_cost (fireball 20) victim)
   \<and> bounds (regenerate_chakra victim)
   \<and> bounds (snd (process_turn_based_effects arena victim))"
proof -
  have b: "bounds victim" and i: "internal_bounds victim" and r: "0 \<le> chakra_regen victim"
    and p: "periodic_values_nonneg arena victim"
    by (simp_all add: bounds_def internal_bounds_def periodic_values_nonneg_def
          victim_def fighter_fields arena_lists arena_objects poison_fields)
  from bounds_preserved [OF b i, of 30 "fireball 20" arena] b i r p show ?thesis by simp
qed

text \<open>
  C3. Evaluation at the failing input: the target (100 hp, defense 30) carries a
  damage-over-time effect of 10. The round preparation takes its hp to 90 by writing
  \<open>hp\<close> alone; the attack (attack 50, so damage 35) then computes the new hp from the
  internal copy, still 100, and the target ends at 65 instead of 90 - 35 = 55. Lemma
  \<open>attack_on_synced_target\<close> shows that the hp does go down by the damage (clamped at
  0) whenever the two hp fields agree.
\<close>

theorem attack_after_dot:
  "hp (heap (prepare_new_round (\<lambda>_. 0) (duel fighter victim)) 1) = 90
   \<and> is_alive (heap (prepare_new_round (\<lambda>_. 0) (duel fighter victim)) 1)
   \<and> max 1 (attack (heap (prepare_new_round (\<lambda>_. 0) (duel fighter victim)) 0)
              - defense (heap (prepare_new_round (\<lambda>_. 0) (duel fighter victim)) 1) div 2) = 35
   \<and> hp (fst (resolve strike (heap (prepare_new_round (\<lambda>_. 0) (duel fighter victim)))) 1) = 65"
  by (simp add: round1_victim resolve_attack strike_def execute_attack_def take_damage_def Let_def)

text \<open>
  C5, as stated, fails for a skill of negative cost (here \<open>cost\<close> and \<open>chakra_cost\<close>
  are both -5): the deduction is guarded by \<open>cost > 0\<close>, so the chakra stays at 50
  where \<open>max(0, chakra - cost)\<close> is 55.
\<close>

theorem negative_cost_not_refunded:
  "success (snd (resolve (cast refund) (duel_heap tired rival)))
   \<and> chakra (duel_heap tired rival 0) = 50
   \<and> chakra (fst (resolve (cast refund) (duel_heap tired rival)) 0) = 50
   \<and> max 0 (chakra (duel_heap tired rival 0) - cost refund) = 55
   \<and> max 0 (chakra (duel_heap tired rival 0) - skill_cost refund) = 55"
  using chakra_after_skill [of "cast refund" refund "Suc 0"
          "duel_heap tired rival" "blank_result (cast refund)"]
        execute_skill_hit(2) [of "cast refund" refund "Suc 0"
          "duel_heap tired rival" "blank_result (cast refund)"]
  by (simp add: resolve_skill cast_fields duel_heap_simps refund_fields tired_fields
        rival_fields)

text \<open>
  C5, amended. For a SKILL action with a skill: when the target is alive the
  resolution succeeds and the caster's chakra ends at \<open>max(0, chakra - cost)\<close> if the
  cost (\<open>skill.cost\<close> when positive, else \<open>skill.chakra_cost\<close>) is positive and
  is unchanged otherwise, the effects being applied to the state in which the cost is
  already deducted; when the target is missing or not alive the resolution is
  unsuccessful and no character changes.
\<close>

theorem skill_cost_deducted:
  assumes "action_type act = SKILL" and "skill act = Some sk"
  shows "(target act = Some t \<and> is_alive (h t) \<longrightarrow>
            success (snd (resolve act h))
            \<and> chakra (fst (resolve act h) (character act))
                = (if 0 < skill_cost sk
                   then max 0 (chakra (h (character act)) - skill_cost sk)
                   else chakra (h (character act)))
            \<and> fst (resolve act h)
                = fst (foldl (\<lambda>st effect. apply_skill_effect (character act) t effect st)
                         (h(character act := deduct_cost sk (h (character act))),
                          blank_result act)
                         (effects sk)))
       \<and> (target act = None \<or> (target act = Some t \<and> \<not> is_alive (h t)) \<longrightarrow>
            fst (resolve act h) = h \<and> \<not> success (snd (resolve act h)))"
proof (intro conjI impI)
  assume hit: "target act = Some t \<and> is_alive (h t)"
  then have t: "target act = Some t" and a: "is_alive (h t)" by simp_all
  show "success (snd (resolve act h))"
    by (simp add: resolve_skill [OF assms(1)] execute_skill_hit(2) [of act sk t h, OF assms(2) t a])
  show "chakra (fst (resolve act h) (character act))
          = (if 0 < skill_cost sk then max 0 (chakra (h (character act)) - skill_cost sk)
             else chakra (h (character act)))"
    by (simp only: resolve_skill [OF assms(1)] chakra_after_skill [of act sk t h, OF assms(2) t a])
  show "fst (resolve act h)
          = fst (foldl (\<lambda>st effect. apply_skill_effect (character act) t effect st)
                   (h(character act := deduct_cost sk (h (character act))), blank_result act)
                   (effects sk))"
    by (simp only: resolve_skill [OF assms(1)] execute_skill_hit(1) [of act sk t h, OF assms(2) t a])
next
  assume "target act = None \<or> (target act = Some t \<and> \<not> is_alive (h t))"
  then have miss: "target act = None \<or> \<not> is_alive (h (the (target act)))" by auto
  show "fst (resolve act h) = h"
    by (simp only: resolve_skill [OF assms(1)] execute_skill_miss(1) [of act sk h, OF assms(2) miss])
  show "\<not> success (snd (resolve act h))"
    by (simp only: resolve_skill [OF assms(1)] execute_skill_miss(2) [of act sk h, OF assms(2) miss]
          not_False_eq_True)
qed

theorem skill_cost_deducted_witness:
  "action_type (cast (fireball 20)) = SKILL
   \<and> skill (cast (fireball 20)) = Some (fireball 20)
   \<and> target (cast (fireball 20)) = Some 1
   \<and> is_alive (duel_heap fighter rival 1)
   \<and> success (snd (resolve (cast (fireball 20)) (duel_heap fighter rival)))
   \<and> chakra (fst (resolve (cast (fireball 20)) (duel_heap fighter rival)) 0) = 80
   \<and> \<not> is_alive (duel_heap fighter fallen 1)
   \<and> fst (resolve (cast (fireball 20)) (duel_heap fighter fallen)) = duel_heap fighter fallen
   \<and> \<not> success (snd (resolve (cast (fireball 20)) (duel_heap fighter fallen)))"
proof -
  have live: "target (cast (fireball 20)) = Some (Suc 0) \<and> is_alive (duel_heap fighter rival (Suc 0))"
    and dead: "target (cast (fireball 20)) = None
                 \<or> (target (cast (fireball 20)) = Some (Suc 0)
                     \<and> \<not> is_alive (duel_heap fighter fallen (Suc 0)))"
    by (simp_all add: cast_fields duel_heap_simps rival_fields fallen_simps)
  note hit = skill_cost_deducted [of "cast (fireball 20)" "fireball 20" "Suc 0"
      "duel_heap fighter rival", OF cast_fields(1) cast_fields(2),
      THEN conjunct1, THEN mp, OF live]
  note miss = skill_cost_deducted [of "cast (fireball 20)" "fireball 20" "Suc 0"
      "duel_heap fighter fallen", OF cast_fields(1) cast_fields(2),
      THEN conjunct2, THEN mp, OF dead]
  have "chakra (fst (resolve (cast (fireball 20)) (duel_heap fighter rival)) 0) = 80"
    using hit [THEN conjunct2, THEN conjunct1]
    by (simp add: cast_fields duel_heap_simps fireball_fields fighter_fields)
  with hit [THEN conjunct1] miss live dead show ?thesis
    by (simp add: cast_fields duel_heap_simps)
qed




end
